theory Spec2Isabelle
  imports Main "HOL-Library.AList"
begin

section \<open>The session multiplexer of \<open>streamable-http.ts\<close>\<close>

text \<open>
  The development embeds \<open>createStreamableHTTPServer\<close>: the \<open>transports\<close> object, the
  handlers of \<open>GET /health\<close>, \<open>POST /mcp\<close>, \<open>GET /mcp\<close> and \<open>DELETE /mcp\<close>, and the two
  callbacks (\<open>onsessioninitialized\<close>, \<open>onclose\<close>) that the handler of \<open>POST /mcp\<close> hands to
  every transport it constructs. The transport class itself, the protocol server and
  \<open>randomUUID\<close> belong to libraries; they appear as the environment, which invokes the
  callbacks.
\<close>

subsection \<open>JSON values, requests and responses\<close>

text \<open>
  A parsed JSON value, as \<open>express.json()\<close> leaves it in \<open>req.body\<close>. Numbers are integers
  here: the handlers never compute with a number of the body, and the numbers they emit
  (\<open>-32000\<close>, a count of keys) are integers.
\<close>

datatype json =
    JNull
  | JBool bool
  | JNum int
  | JStr string
  | JArr "json list"
  | JObj "(string \<times> json) list"

text \<open>JavaScript's truthiness of a value (\<open>ToBoolean\<close>).\<close>

fun truthy :: "json \<Rightarrow> bool" where
  "truthy JNull = False"
| "truthy (JBool b) = b"
| "truthy (JNum n) = (n \<noteq> 0)"
| "truthy (JStr s) = (s \<noteq> [])"
| "truthy (JArr xs) = True"
| "truthy (JObj kvs) = True"

text \<open>
  The property read \<open>req.body.method\<close> on a truthy body. Only an object parsed from JSON
  can own a property \<open>method\<close> (its property list holds each key once); on arrays,
  strings, numbers and booleans the read yields \<open>undefined\<close> (\<open>None\<close>), since no prototype
  defines \<open>method\<close>.
\<close>

fun body_method :: "json \<Rightarrow> json option" where
  "body_method (JObj kvs) = map_of kvs ''method''"
| "body_method _ = None"

text \<open>
  What the handlers read of a request: \<open>req.headers['mcp-session-id']\<close> (a string, or
  \<open>undefined\<close> when the header is absent) and \<open>req.body\<close> (\<open>undefined\<close> when nothing was
  parsed).
\<close>

record request =
  mcp_session_id :: "string option"
  body :: "json option"

datatype payload = JsonBody json | TextBody string

record response =
  status :: nat
  payload :: payload

text \<open>The condition \<open>sessionId\<close> in a boolean position: defined and not the empty string.\<close>

fun header_truthy :: "string option \<Rightarrow> bool" where
  "header_truthy None = False"
| "header_truthy (Some s) = (s \<noteq> [])"

text \<open>The condition \<open>req.body && req.body.method === 'initialize'\<close>.\<close>

fun is_initialize :: "json option \<Rightarrow> bool" where
  "is_initialize None = False"
| "is_initialize (Some b) = (truthy b \<and> body_method b = Some (JStr ''initialize''))"

subsection \<open>The \<open>transports\<close> object\<close>

text \<open>
  A transport object is referred to by its address in the store of allocated transports.
  \<open>transports\<close> is a plain object created by \<open>{}\<close>: its own enumerable properties are kept
  as an association list in insertion order, and its prototype is \<open>Object.prototype\<close>.
\<close>

type_synonym tid = nat

type_synonym registry = "(string \<times> tid) list"

text \<open>
  The property names that every plain object inherits from \<open>Object.prototype\<close>
  (ECMAScript, including the legacy accessors of Annex B). Each of the inherited values is
  a function or, for \<open>__proto__\<close>, the prototype object itself: all are truthy and none has
  a property \<open>handleRequest\<close>.
\<close>

definition object_prototype_keys :: "string list" where
  "object_prototype_keys =
     [''constructor'', ''__defineGetter__'', ''__defineSetter__'', ''hasOwnProperty'',
      ''__lookupGetter__'', ''__lookupSetter__'', ''isPrototypeOf'',
      ''propertyIsEnumerable'', ''toString'', ''valueOf'', ''__proto__'',
      ''toLocaleString'']"

text \<open>The result of the property read \<open>transports[k]\<close>.\<close>

datatype js_value = Undefined | Transport tid | Inherited

definition js_get :: "registry \<Rightarrow> string \<Rightarrow> js_value" where
  "js_get ts k =
     (case map_of ts k of
        Some t \<Rightarrow> Transport t
      | None \<Rightarrow> if k \<in> set object_prototype_keys then Inherited else Undefined)"

text \<open>
  The assignment \<open>transports[k] = t\<close> and the statement \<open>delete transports[k]\<close>, for keys
  other than \<open>__proto__\<close> (an assignment to that key would replace the prototype instead of
  adding a property; the session id generator never returns it, see \<open>is_uuid\<close>). An
  assignment to an existing key keeps the key's position, a new key is appended.
\<close>

definition js_set :: "string \<Rightarrow> tid \<Rightarrow> registry \<Rightarrow> registry" where
  "js_set k t ts = AList.update k t ts"

definition js_delete :: "string \<Rightarrow> registry \<Rightarrow> registry" where
  "js_delete k ts = AList.delete k ts"

text \<open>\<open>Object.keys(transports)\<close>.\<close>

definition object_keys :: "registry \<Rightarrow> string list" where
  "object_keys ts = map fst ts"

text \<open>
  The value of \<open>sessionId && transports[sessionId]\<close>, and of the negation of
  \<open>!sessionId || !transports[sessionId]\<close>: falsy (\<open>Undefined\<close>) when the header is absent
  or empty, the property read otherwise.
\<close>

fun session_lookup :: "registry \<Rightarrow> string option \<Rightarrow> js_value" where
  "session_lookup ts None = Undefined"
| "session_lookup ts (Some s) = (if s = [] then Undefined else js_get ts s)"

subsection \<open>Transports and the state of the server\<close>

text \<open>
  Of a \<open>StreamableHTTPServerTransport\<close> the code reads the field \<open>sessionId\<close> only. The
  record adds \<open>closed\<close>, which tells whether the transport's \<open>onclose\<close> has fired, and \<open>res\<close>,
  the response object that the closure \<open>onsessioninitialized\<close> of this transport captured:
  the response of the request that constructed the transport. Responses are numbered by
  the requests they answer.
\<close>

record transport =
  sessionId :: "string option"
  closed :: bool
  res :: nat

text \<open>
  \<open>transports\<close> is the registry, \<open>heap\<close> holds every transport constructed so far (the
  address of a transport is its index), and \<open>session_headers\<close> logs the calls
  \<open>res.setHeader('mcp-session-id', v)\<close> made by this code, as pairs of the response and \<open>v\<close>.
\<close>

record state =
  transports :: registry
  heap :: "transport list"
  session_headers :: "(nat \<times> string) list"

definition init_state :: state where
  "init_state = \<lparr>transports = [], heap = [], session_headers = []\<rparr>"

definition deref :: "state \<Rightarrow> tid \<Rightarrow> transport option" where
  "deref st t = (if t < length (heap st) then Some (heap st ! t) else None)"

record config =
  serverName :: string
  serverVersion :: string

subsection \<open>The handlers\<close>

text \<open>
  How a handler ends: it wrote a response itself, or it reached
  \<open>await transport.handleRequest(...)\<close> with a transport object, or that call raised a
  \<open>TypeError\<close> because the value in \<open>transport\<close> is not a transport (it has no
  \<open>handleRequest\<close>).
\<close>

datatype outcome =
    Respond response
  | Handled tid
  | Threw

text \<open>\<open>app.get('/health', ...)\<close>; \<open>now\<close> is \<open>new Date().toISOString()\<close>.\<close>

definition health :: "config \<Rightarrow> state \<Rightarrow> string \<Rightarrow> request \<Rightarrow> response" where
  "health cfg st now req =
     \<lparr>status = 200,
      payload = JsonBody (JObj
        [(''status'', JStr ''healthy''),
         (''timestamp'', JStr now),
         (''activeSessions'', JNum (int (length (object_keys (transports st))))),
         (''serverName'', JStr (serverName cfg)),
         (''serverVersion'', JStr (serverVersion cfg))])\<rparr>"

text \<open>The response of the last branch of \<open>app.post('/mcp', ...)\<close>.\<close>

definition bad_request :: response where
  "bad_request =
     \<lparr>status = 400,
      payload = JsonBody (JObj
        [(''jsonrpc'', JStr ''2.0''),
         (''error'', JObj
            [(''code'', JNum (- 32000)),
             (''message'', JStr ''Bad Request: No valid session ID provided'')]),
         (''id'', JNull)])\<rparr>"

text \<open>
  \<open>new StreamableHTTPServerTransport({...})\<close> inside the handler whose response is \<open>r\<close>:
  the new object has no session id yet. The call \<open>server.connect(transport)\<close> that
  follows touches neither \<open>transports\<close> nor a response.
\<close>

definition new_transport :: "state \<Rightarrow> nat \<Rightarrow> state \<times> tid" where
  "new_transport st r =
     (st\<lparr>heap := heap st @ [\<lparr>sessionId = None, closed = False, res = r\<rparr>]\<rparr>,
      length (heap st))"

text \<open>
  \<open>app.post('/mcp', ...)\<close> up to its \<open>await\<close>; \<open>r\<close> is the response object of the request.
  The three branches are those of the source, in its order.
\<close>

definition post_mcp :: "state \<Rightarrow> request \<Rightarrow> nat \<Rightarrow> state \<times> outcome" where
  "post_mcp st req r =
     (case session_lookup (transports st) (mcp_session_id req) of
        Transport t \<Rightarrow> (st, Handled t)
      | Inherited \<Rightarrow> (st, Threw)
      | Undefined \<Rightarrow>
          if \<not> header_truthy (mcp_session_id req) \<and> is_initialize (body req)
          then (case new_transport st r of (st', t) \<Rightarrow> (st', Handled t))
          else (st, Respond bad_request))"

text \<open>\<open>handleSessionRequest\<close>, the handler of \<open>GET /mcp\<close> and of \<open>DELETE /mcp\<close>.\<close>

definition invalid_session :: response where
  "invalid_session = \<lparr>status = 400, payload = TextBody ''Invalid or missing session ID''\<rparr>"

definition handleSessionRequest :: "state \<Rightarrow> request \<Rightarrow> state \<times> outcome" where
  "handleSessionRequest st req =
     (case session_lookup (transports st) (mcp_session_id req) of
        Undefined \<Rightarrow> (st, Respond invalid_session)
      | Transport t \<Rightarrow> (st, Handled t)
      | Inherited \<Rightarrow> (st, Threw))"

subsection \<open>The callbacks of a transport\<close>

text \<open>
  \<open>onsessioninitialized\<close> of the transport \<open>t\<close> whose closure captured the response \<open>r\<close>:
  \<open>transports[sessionId] = transport; res.setHeader('mcp-session-id', sessionId)\<close>.
\<close>

definition onsessioninitialized :: "state \<Rightarrow> tid \<Rightarrow> nat \<Rightarrow> string \<Rightarrow> state" where
  "onsessioninitialized st t r sid =
     st\<lparr>transports := js_set sid t (transports st),
        session_headers := session_headers st @ [(r, sid)]\<rparr>"

text \<open>
  \<open>transport.onclose\<close> of the transport \<open>t\<close>:
  \<open>if (transport.sessionId) { delete transports[transport.sessionId]; }\<close>.
\<close>

definition onclose :: "state \<Rightarrow> tid \<Rightarrow> state" where
  "onclose st t =
     (case deref st t of
        None \<Rightarrow> st
      | Some tr \<Rightarrow>
          (case sessionId tr of
             None \<Rightarrow> st
           | Some sid \<Rightarrow>
               if sid \<noteq> [] then st\<lparr>transports := js_delete sid (transports st)\<rparr> else st))"

subsection \<open>The environment: the transport library and the network\<close>

text \<open>
  The option \<open>sessionIdGenerator: () => randomUUID()\<close> makes every session id a result of
  \<open>randomUUID\<close> of \<open>node:crypto\<close>, a version 4 UUID in lower-case hexadecimal digits:
  in the pattern \<open>x\<close> is such a digit and \<open>y\<close> is one of \<open>8\<close>, \<open>9\<close>, \<open>a\<close>, \<open>b\<close>.
\<close>

definition uuid_pattern :: string where
  "uuid_pattern = ''xxxxxxxx-xxxx-4xxx-yxxx-xxxxxxxxxxxx''"

definition uuid_char :: "char \<Rightarrow> char \<Rightarrow> bool" where
  "uuid_char p c =
     (if p = CHR ''x'' then c \<in> set ''0123456789abcdef''
      else if p = CHR ''y'' then c \<in> set ''89ab''
      else c = p)"

definition is_uuid :: "string \<Rightarrow> bool" where
  "is_uuid s = list_all2 uuid_char uuid_pattern s"

text \<open>
  What the transport library does to the state of this code, on a transport \<open>t\<close>:
  \<^item> \<open>SessionInitialized sid\<close>: while it handles the request that initializes \<open>t\<close>, it
    stores \<open>sid\<close>, the result of \<open>sessionIdGenerator()\<close>, in \<open>t.sessionId\<close> and calls
    \<open>onsessioninitialized(sid)\<close>;
  \<^item> \<open>Close\<close>: \<open>t\<close> closes (a \<open>DELETE\<close> it handled, a fatal error, a shutdown) and the
    library calls \<open>t.onclose()\<close>.
\<close>

datatype sdk_call = SessionInitialized string | Close

definition sdk_step :: "state \<Rightarrow> tid \<Rightarrow> sdk_call \<Rightarrow> state" where
  "sdk_step st t c =
     (case deref st t of
        None \<Rightarrow> st
      | Some tr \<Rightarrow>
          (case c of
             SessionInitialized sid \<Rightarrow>
               onsessioninitialized
                 (st\<lparr>heap := (heap st)[t := tr\<lparr>sessionId := Some sid\<rparr>]\<rparr>) t (res tr) sid
           | Close \<Rightarrow>
               onclose (st\<lparr>heap := (heap st)[t := tr\<lparr>closed := True\<rparr>]\<rparr>) t))"

text \<open>
  The contract of the environment, a hypothesis of every statement about runs. A
  transport is initialized at most once and not after it closed (sections 3 and 4.2 of
  the specification: the step from unbound to bound happens once, and nothing is
  resurrected once closed), and the generator returns a UUID that no transport has been
  given before (Invariant I3). A transport may close at any time, also twice.
\<close>

definition sdk_ok :: "state \<Rightarrow> tid \<Rightarrow> sdk_call \<Rightarrow> bool" where
  "sdk_ok st t c =
     (case deref st t of
        None \<Rightarrow> False
      | Some tr \<Rightarrow>
          (case c of
             SessionInitialized sid \<Rightarrow>
               sessionId tr = None \<and> \<not> closed tr \<and> is_uuid sid \<and>
               Some sid \<notin> set (map sessionId (heap st))
           | Close \<Rightarrow> True))"

text \<open>
  An event is a request arriving at one of the four routes, or a call of the library into
  a callback. The \<open>n\<close>-th event of a run, when it is a request, is answered on response \<open>n\<close>.
\<close>

datatype event =
    GetHealth request
  | PostMcp request
  | GetMcp request
  | DeleteMcp request
  | Sdk tid sdk_call

fun step :: "state \<Rightarrow> nat \<Rightarrow> event \<Rightarrow> state" where
  "step st n (GetHealth req) = st"
| "step st n (PostMcp req) = fst (post_mcp st req n)"
| "step st n (GetMcp req) = fst (handleSessionRequest st req)"
| "step st n (DeleteMcp req) = fst (handleSessionRequest st req)"
| "step st n (Sdk t c) = sdk_step st t c"

fun event_ok :: "state \<Rightarrow> event \<Rightarrow> bool" where
  "event_ok st (Sdk t c) = sdk_ok st t c"
| "event_ok st e = True"

fun run :: "state \<Rightarrow> nat \<Rightarrow> event list \<Rightarrow> state" where
  "run st n [] = st"
| "run st n (e # es) = run (step st n e) (Suc n) es"

fun run_ok :: "state \<Rightarrow> nat \<Rightarrow> event list \<Rightarrow> bool" where
  "run_ok st n [] = True"
| "run_ok st n (e # es) = (event_ok st e \<and> run_ok (step st n e) (Suc n) es)"

text \<open>A transport is bound when it has a session id and has not closed.\<close>

definition bound :: "transport \<Rightarrow> bool" where
  "bound tr = (\<not> closed tr \<and> sessionId tr \<noteq> None)"


subsection \<open>Invariants of the reachable states\<close>

text \<open>
  The registry has no key twice; every entry leads to an allocated transport that carries
  the entry's key as its session id and has not closed; every such transport has its
  entry; two transports never carry the same id; every id is a UUID.
\<close>

definition registry_inv :: "state \<Rightarrow> bool" where
  "registry_inv st =
     (distinct (map fst (transports st)) \<and>
      (\<forall>k t. map_of (transports st) k = Some t \<longrightarrow>
         t < length (heap st) \<and> sessionId (heap st ! t) = Some k \<and> \<not> closed (heap st ! t)) \<and>
      (\<forall>t k. t < length (heap st) \<and> sessionId (heap st ! t) = Some k \<and> \<not> closed (heap st ! t) \<longrightarrow>
         map_of (transports st) k = Some t) \<and>
      (\<forall>t t' k. t < length (heap st) \<and> t' < length (heap st) \<and>
         sessionId (heap st ! t) = Some k \<and> sessionId (heap st ! t') = Some k \<longrightarrow> t = t') \<and>
      (\<forall>t k. t < length (heap st) \<and> sessionId (heap st ! t) = Some k \<longrightarrow> is_uuid k))"



subsection \<open>A sample run\<close>

text \<open>
  Two clients initialize a session each; the first one then sends \<open>DELETE /mcp\<close> and its
  transport closes. \<open>example_state\<close> is the state after these events, and \<open>example_later\<close>
  continues the run.
\<close>

definition example_id1 :: string where
  "example_id1 = ''123e4567-e89b-42d3-a456-426614174000''"

definition example_id2 :: string where
  "example_id2 = ''9b2f0c1e-7a34-4d5b-8c6f-0123456789ab''"

definition example_init :: request where
  "example_init =
     \<lparr>mcp_session_id = None,
      body = Some (JObj [(''jsonrpc'', JStr ''2.0''), (''id'', JNum 1),
                         (''method'', JStr ''initialize'')])\<rparr>"

definition example_run :: "event list" where
  "example_run =
     [PostMcp example_init,
      Sdk 0 (SessionInitialized example_id1),
      PostMcp example_init,
      Sdk 1 (SessionInitialized example_id2),
      DeleteMcp \<lparr>mcp_session_id = Some example_id1, body = None\<rparr>,
      Sdk 0 Close]"

definition example_state :: state where
  "example_state =
     \<lparr>transports = [(example_id2, 1)],
      heap = [\<lparr>sessionId = Some example_id1, closed = True, res = 0\<rparr>,
              \<lparr>sessionId = Some example_id2, closed = False, res = 2\<rparr>],
      session_headers = [(0, example_id1), (2, example_id2)]\<rparr>"

definition example_later :: "event list" where
  "example_later = [GetHealth \<lparr>mcp_session_id = None, body = None\<rparr>, PostMcp example_init]"

section \<open>Properties of the handlers and callbacks\<close>

subsection \<open>Session ids and property reads\<close>

lemma uuid_length: "is_uuid s \<Longrightarrow> length s = 36"
  by (auto simp: is_uuid_def uuid_pattern_def dest: list_all2_lengthD)

lemma uuid_nonempty: "is_uuid s \<Longrightarrow> s \<noteq> []"
  by (auto dest: uuid_length)

lemma uuid_not_inherited: "is_uuid s \<Longrightarrow> s \<notin> set object_prototype_keys"
  by (auto simp: object_prototype_keys_def dest: uuid_length)

lemma js_get_uuid: "is_uuid k \<Longrightarrow> map_of ts k = None \<Longrightarrow> js_get ts k = Undefined"
  by (simp add: js_get_def uuid_not_inherited)

subsection \<open>Routing of \<open>POST /mcp\<close>\<close>

text \<open>
  Claim C1, as it is written, fails on two requests. A header that is present with the
  empty string as its value counts as absent, so with a creation body a transport is
  constructed instead of the error; and a header that names a property of
  \<open>Object.prototype\<close> passes the test \<open>transports[sessionId]\<close> although no transport is
  registered under it, after which the call of \<open>handleRequest\<close> raises.
\<close>

theorem post_mcp_routing_counterexample:
  "post_mcp init_state
      \<lparr>mcp_session_id = Some '''', body = Some (JObj [(''method'', JStr ''initialize'')])\<rparr> 0
     = (\<lparr>transports = [], heap = [\<lparr>sessionId = None, closed = False, res = 0\<rparr>],
         session_headers = []\<rparr>, Handled 0) \<and>
   post_mcp init_state \<lparr>mcp_session_id = Some ''constructor'', body = None\<rparr> 0
     = (init_state, Threw)"
  by (simp add: post_mcp_def new_transport_def init_state_def js_get_def
                object_prototype_keys_def)

text \<open>
  Claim C1, amended: the decision table of \<open>POST /mcp\<close>. A non-empty session id that is
  registered sends the request to the transport registered under it, whatever the body.
  An absent or empty session id with a creation body constructs a new transport, which
  handles the request. A non-empty session id that is neither registered nor a property
  name of \<open>Object.prototype\<close>, and an absent or empty session id with a body that is not a
  creation message, are answered with status 400 while the state stays as it was.
\<close>

theorem post_mcp_routing:
  "(\<forall>s t. mcp_session_id req = Some s \<and> s \<noteq> [] \<and> map_of (transports st) s = Some t \<longrightarrow>
      post_mcp st req r = (st, Handled t)) \<and>
   ((mcp_session_id req = None \<or> mcp_session_id req = Some []) \<and> is_initialize (body req) \<longrightarrow>
      post_mcp st req r =
        (st\<lparr>heap := heap st @ [\<lparr>sessionId = None, closed = False, res = r\<rparr>]\<rparr>,
         Handled (length (heap st)))) \<and>
   (\<forall>s. mcp_session_id req = Some s \<and> s \<noteq> [] \<and> map_of (transports st) s = None \<and>
        s \<notin> set object_prototype_keys \<longrightarrow>
      post_mcp st req r = (st, Respond bad_request) \<and> status bad_request = 400) \<and>
   ((mcp_session_id req = None \<or> mcp_session_id req = Some []) \<and> \<not> is_initialize (body req) \<longrightarrow>
      post_mcp st req r = (st, Respond bad_request) \<and> status bad_request = 400)"
  by (auto simp: post_mcp_def new_transport_def js_get_def bad_request_def)

theorem post_mcp_routing_witness:
  "post_mcp \<lparr>transports = [(''123e4567-e89b-42d3-a456-426614174000'', 0)],
             heap = [\<lparr>sessionId = Some ''123e4567-e89b-42d3-a456-426614174000'',
                      closed = False, res = 0\<rparr>],
             session_headers = [(0, ''123e4567-e89b-42d3-a456-426614174000'')]\<rparr>
      \<lparr>mcp_session_id = Some ''123e4567-e89b-42d3-a456-426614174000'',
       body = Some (JObj [(''method'', JStr ''tools/list'')])\<rparr> 2
     = (\<lparr>transports = [(''123e4567-e89b-42d3-a456-426614174000'', 0)],
         heap = [\<lparr>sessionId = Some ''123e4567-e89b-42d3-a456-426614174000'',
                  closed = False, res = 0\<rparr>],
         session_headers = [(0, ''123e4567-e89b-42d3-a456-426614174000'')]\<rparr>, Handled 0) \<and>
   post_mcp init_state
      \<lparr>mcp_session_id = None, body = Some (JObj [(''method'', JStr ''initialize'')])\<rparr> 0
     = (\<lparr>transports = [], heap = [\<lparr>sessionId = None, closed = False, res = 0\<rparr>],
         session_headers = []\<rparr>, Handled 0) \<and>
   post_mcp init_state \<lparr>mcp_session_id = Some ''bogus'', body = None\<rparr> 0
     = (init_state, Respond bad_request) \<and>
   post_mcp init_state
      \<lparr>mcp_session_id = None, body = Some (JObj [(''method'', JStr ''tools/list'')])\<rparr> 0
     = (init_state, Respond bad_request) \<and>
   status bad_request = 400"
proof -
  let ?u = "''123e4567-e89b-42d3-a456-426614174000''"
  let ?st = "\<lparr>transports = [(?u, 0)],
              heap = [\<lparr>sessionId = Some ?u, closed = False, res = 0\<rparr>],
              session_headers = [(0, ?u)]\<rparr>"
  let ?known = "\<lparr>mcp_session_id = Some ?u, body = Some (JObj [(''method'', JStr ''tools/list'')])\<rparr>"
  let ?create = "\<lparr>mcp_session_id = None, body = Some (JObj [(''method'', JStr ''initialize'')])\<rparr>"
  let ?bogus = "\<lparr>mcp_session_id = Some ''bogus'', body = None\<rparr>"
  let ?plain = "\<lparr>mcp_session_id = None, body = Some (JObj [(''method'', JStr ''tools/list'')])\<rparr>"
  have 1: "post_mcp ?st ?known 2 = (?st, Handled 0)"
    using post_mcp_routing [of ?known ?st 2, THEN conjunct1, rule_format, of ?u 0]
    by simp
  have 2: "post_mcp init_state ?create 0 =
             (init_state\<lparr>heap := heap init_state @ [\<lparr>sessionId = None, closed = False, res = 0\<rparr>]\<rparr>,
              Handled (length (heap init_state)))"
    using post_mcp_routing [of ?create init_state 0, THEN conjunct2, THEN conjunct1]
    by simp
  have 3: "post_mcp init_state ?bogus 0 = (init_state, Respond bad_request) \<and>
           status bad_request = 400"
    using post_mcp_routing [of ?bogus init_state 0, THEN conjunct2, THEN conjunct2,
                            THEN conjunct1, rule_format, of "''bogus''"]
    by (simp add: init_state_def object_prototype_keys_def)
  have 4: "post_mcp init_state ?plain 0 = (init_state, Respond bad_request) \<and>
           status bad_request = 400"
    using post_mcp_routing [of ?plain init_state 0, THEN conjunct2, THEN conjunct2,
                            THEN conjunct2]
    by simp
  from 1 2 3 4 show ?thesis by (simp add: init_state_def)
qed

subsection \<open>Rejections\<close>

text \<open>
  Claim C4: whenever \<open>POST /mcp\<close> answers the request itself, which it does only to reject
  it for its session id, the status is 400 and the body is the JSON-RPC error object with
  \<open>jsonrpc\<close> \<open>"2.0"\<close>, an \<open>error\<close> of code \<open>-32000\<close> and a message string, and \<open>id\<close> \<open>null\<close>.
\<close>

theorem post_mcp_rejection_shape:
  assumes "post_mcp st req r = (st', Respond resp)"
  shows "status resp = 400 \<and>
         payload resp = JsonBody (JObj
           [(''jsonrpc'', JStr ''2.0''),
            (''error'', JObj
               [(''code'', JNum (- 32000)),
                (''message'', JStr ''Bad Request: No valid session ID provided'')]),
            (''id'', JNull)])"
  using assms
  by (auto simp: post_mcp_def new_transport_def bad_request_def
           split: js_value.splits if_splits)

theorem post_mcp_rejection_shape_witness:
  "post_mcp init_state \<lparr>mcp_session_id = Some ''bogus'', body = None\<rparr> 0
     = (init_state, Respond bad_request) \<and>
   status bad_request = 400 \<and>
   payload bad_request = JsonBody (JObj
     [(''jsonrpc'', JStr ''2.0''),
      (''error'', JObj
         [(''code'', JNum (- 32000)),
          (''message'', JStr ''Bad Request: No valid session ID provided'')]),
      (''id'', JNull)])"
proof -
  have h: "post_mcp init_state \<lparr>mcp_session_id = Some ''bogus'', body = None\<rparr> 0
             = (init_state, Respond bad_request)"
    by (simp add: post_mcp_def init_state_def js_get_def object_prototype_keys_def)
  from post_mcp_rejection_shape [OF h] h show ?thesis by simp
qed

text \<open>
  Claim C9: a request that \<open>POST /mcp\<close>, \<open>GET /mcp\<close> or \<open>DELETE /mcp\<close> rejects is answered
  with status 400 and leaves the whole state as it was: the registry keeps its entries
  and no transport is constructed.
\<close>

theorem rejected_request_leaves_state:
  "(post_mcp st req r = (st', Respond resp) \<longrightarrow> status resp = 400 \<and> st' = st) \<and>
   (handleSessionRequest st req = (st'', Respond resp') \<longrightarrow> status resp' = 400 \<and> st'' = st)"
  by (auto simp: post_mcp_def handleSessionRequest_def new_transport_def bad_request_def
                 invalid_session_def
           split: js_value.splits if_splits)

theorem rejected_request_leaves_state_witness:
  "post_mcp init_state \<lparr>mcp_session_id = None, body = None\<rparr> 0
     = (init_state, Respond bad_request) \<and>
   handleSessionRequest init_state \<lparr>mcp_session_id = None, body = None\<rparr>
     = (init_state, Respond invalid_session) \<and>
   status bad_request = 400 \<and> status invalid_session = 400"
proof -
  let ?req = "\<lparr>mcp_session_id = None, body = None\<rparr>"
  have p: "post_mcp init_state ?req 0 = (init_state, Respond bad_request)"
    by (simp add: post_mcp_def)
  have h: "handleSessionRequest init_state ?req = (init_state, Respond invalid_session)"
    by (simp add: handleSessionRequest_def)
  from rejected_request_leaves_state
         [of init_state ?req 0 init_state bad_request init_state invalid_session] p h
  show ?thesis by simp
qed

subsection \<open>\<open>GET /mcp\<close> and \<open>DELETE /mcp\<close>\<close>

text \<open>
  Claim C6 at the request \<open>GET /mcp\<close> (or \<open>DELETE /mcp\<close>) with the header
  \<open>mcp-session-id: toString\<close>, while no session exists at all: the header names no
  registered transport, yet \<open>handleSessionRequest\<close> does not answer 400. The read
  \<open>transports['toString']\<close> yields the function inherited from \<open>Object.prototype\<close>, the
  test lets it pass, and \<open>transport.handleRequest\<close> raises a \<open>TypeError\<close>.
\<close>

theorem session_request_inherited_key:
  "handleSessionRequest init_state \<lparr>mcp_session_id = Some ''toString'', body = None\<rparr>
     = (init_state, Threw)"
  by (simp add: handleSessionRequest_def init_state_def js_get_def object_prototype_keys_def)

text \<open>
  What \<open>handleSessionRequest\<close> does on every other request: an absent or empty session id,
  and a non-empty one that is neither registered nor a property name of
  \<open>Object.prototype\<close>, are answered with status 400; a registered one sends the request to
  its transport.
\<close>

lemma handleSessionRequest_routing:
  "(mcp_session_id req = None \<or> mcp_session_id req = Some [] \<longrightarrow>
      handleSessionRequest st req = (st, Respond invalid_session)) \<and>
   (\<forall>s. mcp_session_id req = Some s \<and> s \<noteq> [] \<and> map_of (transports st) s = None \<and>
        s \<notin> set object_prototype_keys \<longrightarrow>
      handleSessionRequest st req = (st, Respond invalid_session)) \<and>
   (\<forall>s t. mcp_session_id req = Some s \<and> s \<noteq> [] \<and> map_of (transports st) s = Some t \<longrightarrow>
      handleSessionRequest st req = (st, Handled t)) \<and>
   status invalid_session = 400"
  by (auto simp: handleSessionRequest_def js_get_def invalid_session_def)

subsection \<open>The callbacks\<close>

text \<open>
  Claim C2, as it is written, fails: when the id is already a key of the registry,
  \<open>onsessioninitialized\<close> raises nothing and stores the new transport under the key, in
  place of the transport that was there.
\<close>

theorem register_duplicate_counterexample:
  "map_of (transports
      \<lparr>transports = [(''123e4567-e89b-42d3-a456-426614174000'', 0)],
       heap = [\<lparr>sessionId = Some ''123e4567-e89b-42d3-a456-426614174000'',
                closed = False, res = 0\<rparr>,
               \<lparr>sessionId = Some ''123e4567-e89b-42d3-a456-426614174000'',
                closed = False, res = 1\<rparr>],
       session_headers = [(0, ''123e4567-e89b-42d3-a456-426614174000'')]\<rparr>)
      ''123e4567-e89b-42d3-a456-426614174000'' = Some 0 \<and>
   onsessioninitialized
      \<lparr>transports = [(''123e4567-e89b-42d3-a456-426614174000'', 0)],
       heap = [\<lparr>sessionId = Some ''123e4567-e89b-42d3-a456-426614174000'',
                closed = False, res = 0\<rparr>,
               \<lparr>sessionId = Some ''123e4567-e89b-42d3-a456-426614174000'',
                closed = False, res = 1\<rparr>],
       session_headers = [(0, ''123e4567-e89b-42d3-a456-426614174000'')]\<rparr>
      1 1 ''123e4567-e89b-42d3-a456-426614174000''
    = \<lparr>transports = [(''123e4567-e89b-42d3-a456-426614174000'', 1)],
       heap = [\<lparr>sessionId = Some ''123e4567-e89b-42d3-a456-426614174000'',
                closed = False, res = 0\<rparr>,
               \<lparr>sessionId = Some ''123e4567-e89b-42d3-a456-426614174000'',
                closed = False, res = 1\<rparr>],
       session_headers = [(0, ''123e4567-e89b-42d3-a456-426614174000''),
                          (1, ''123e4567-e89b-42d3-a456-426614174000'')]\<rparr>"
  by (simp add: onsessioninitialized_def js_set_def)

text \<open>
  Claim C2, amended: registering a transport under a session id never fails. Afterwards
  the id leads to that transport, whether or not the id was a key before; the other
  entries and the order of the keys stay, a new key is appended, and no transport object
  changes.
\<close>

theorem register_overwrites:
  assumes "is_uuid sid"
  shows "map_of (transports (onsessioninitialized st t r sid))
           = (map_of (transports st))(sid \<mapsto> t) \<and>
         map fst (transports (onsessioninitialized st t r sid)) =
           (if sid \<in> set (map fst (transports st)) then map fst (transports st)
            else map fst (transports st) @ [sid]) \<and>
         heap (onsessioninitialized st t r sid) = heap st"
  by (simp add: onsessioninitialized_def js_set_def update_conv' update_keys)

theorem register_overwrites_witness:
  "is_uuid ''123e4567-e89b-42d3-a456-426614174000'' \<and>
   map_of (transports (onsessioninitialized
      \<lparr>transports = [(''123e4567-e89b-42d3-a456-426614174000'', 0)], heap = [],
       session_headers = []\<rparr>
      1 1 ''123e4567-e89b-42d3-a456-426614174000''))
     ''123e4567-e89b-42d3-a456-426614174000'' = Some 1"
proof -
  have h: "is_uuid ''123e4567-e89b-42d3-a456-426614174000''"
    by (simp add: is_uuid_def uuid_pattern_def uuid_char_def)
  from register_overwrites
         [OF h, of "\<lparr>transports = [(''123e4567-e89b-42d3-a456-426614174000'', 0)], heap = [],
                     session_headers = []\<rparr>" 1 1] h
  show ?thesis by simp
qed

text \<open>
  Claim C10: when \<open>onclose\<close> fires on a transport that has no session id, the state stays
  as it was. In every case \<open>onclose\<close> adds no entry to the registry, keeps every entry
  whose key is not the session id of the closing transport, and changes neither a
  transport object nor a response header.
\<close>

theorem onclose_evicts_own_id_only:
  assumes "deref st t = Some tr"
  shows "(sessionId tr = None \<longrightarrow> onclose st t = st) \<and>
         (\<forall>k v. sessionId tr \<noteq> Some k \<longrightarrow>
            ((k, v) \<in> set (transports (onclose st t)) \<longleftrightarrow> (k, v) \<in> set (transports st))) \<and>
         set (transports (onclose st t)) \<subseteq> set (transports st) \<and>
         heap (onclose st t) = heap st \<and>
         session_headers (onclose st t) = session_headers st"
  using assms
  by (auto simp: onclose_def js_delete_def AList.delete_eq split: option.splits)

theorem onclose_evicts_own_id_only_witness:
  "deref \<lparr>transports = [(''a'', 1)],
          heap = [\<lparr>sessionId = None, closed = False, res = 0\<rparr>,
                  \<lparr>sessionId = Some ''a'', closed = False, res = 1\<rparr>],
          session_headers = [(1, ''a'')]\<rparr> 0
     = Some \<lparr>sessionId = None, closed = False, res = 0\<rparr> \<and>
   onclose \<lparr>transports = [(''a'', 1)],
            heap = [\<lparr>sessionId = None, closed = False, res = 0\<rparr>,
                    \<lparr>sessionId = Some ''a'', closed = False, res = 1\<rparr>],
            session_headers = [(1, ''a'')]\<rparr> 0
     = \<lparr>transports = [(''a'', 1)],
        heap = [\<lparr>sessionId = None, closed = False, res = 0\<rparr>,
                \<lparr>sessionId = Some ''a'', closed = False, res = 1\<rparr>],
        session_headers = [(1, ''a'')]\<rparr>"
proof -
  let ?st = "\<lparr>transports = [(''a'', 1)],
              heap = [\<lparr>sessionId = None, closed = False, res = 0\<rparr>,
                      \<lparr>sessionId = Some ''a'', closed = False, res = 1\<rparr>],
              session_headers = [(1, ''a'')]\<rparr>"
  have h: "deref ?st 0 = Some \<lparr>sessionId = None, closed = False, res = 0\<rparr>"
    by (simp add: deref_def)
  from onclose_evicts_own_id_only [OF h] h show ?thesis by simp
qed

subsection \<open>The registry along a run\<close>

text \<open>
  The state after each handler and each call of the library, then the proof that every
  event allowed by the contract of the environment keeps \<open>registry_inv\<close>.
\<close>

lemma registry_inv_init: "registry_inv init_state"
  by (simp add: registry_inv_def init_state_def)

lemma post_mcp_state:
  "fst (post_mcp st req r) = st \<or>
   fst (post_mcp st req r) = st\<lparr>heap := heap st @ [\<lparr>sessionId = None, closed = False, res = r\<rparr>]\<rparr>"
  by (simp add: post_mcp_def new_transport_def split: js_value.splits)

lemma handleSessionRequest_state: "fst (handleSessionRequest st req) = st"
  by (simp add: handleSessionRequest_def split: js_value.splits)

lemma sdk_init_state:
  assumes "deref st t = Some tr"
  shows "sdk_step st t (SessionInitialized sid) =
           st\<lparr>heap := (heap st)[t := tr\<lparr>sessionId := Some sid\<rparr>],
              transports := AList.update sid t (transports st),
              session_headers := session_headers st @ [(res tr, sid)]\<rparr>"
  using assms by (simp add: sdk_step_def onsessioninitialized_def js_set_def)

lemma sdk_close_state:
  assumes "deref st t = Some tr"
  shows "sdk_step st t Close =
           st\<lparr>heap := (heap st)[t := tr\<lparr>closed := True\<rparr>],
              transports := (case sessionId tr of
                               None \<Rightarrow> transports st
                             | Some sid \<Rightarrow> if sid \<noteq> [] then AList.delete sid (transports st)
                                          else transports st)\<rparr>"
  using assms
  by (auto simp: sdk_step_def onclose_def js_delete_def deref_def split: option.splits if_splits)

lemma fresh_nth:
  "Some sid \<notin> set (map f xs) \<Longrightarrow> t < length xs \<Longrightarrow> f (xs ! t) \<noteq> Some sid"
  by (metis length_map nth_map nth_mem)

lemma registry_invI:
  assumes "distinct (map fst (transports st))"
    and "\<And>k t. map_of (transports st) k = Some t \<Longrightarrow>
           t < length (heap st) \<and> sessionId (heap st ! t) = Some k \<and> \<not> closed (heap st ! t)"
    and "\<And>t k. t < length (heap st) \<Longrightarrow> sessionId (heap st ! t) = Some k \<Longrightarrow>
           \<not> closed (heap st ! t) \<Longrightarrow> map_of (transports st) k = Some t"
    and "\<And>t t' k. t < length (heap st) \<Longrightarrow> t' < length (heap st) \<Longrightarrow>
           sessionId (heap st ! t) = Some k \<Longrightarrow> sessionId (heap st ! t') = Some k \<Longrightarrow> t = t'"
    and "\<And>t k. t < length (heap st) \<Longrightarrow> sessionId (heap st ! t) = Some k \<Longrightarrow> is_uuid k"
  shows "registry_inv st"
  using assms unfolding registry_inv_def by blast

lemma registry_inv_distinct: "registry_inv st \<Longrightarrow> distinct (map fst (transports st))"
  by (simp add: registry_inv_def)

lemma registry_inv_entry:
  "registry_inv st \<Longrightarrow> map_of (transports st) k = Some t \<Longrightarrow>
     t < length (heap st) \<and> sessionId (heap st ! t) = Some k \<and> \<not> closed (heap st ! t)"
  unfolding registry_inv_def by blast

lemma registry_inv_bound:
  "registry_inv st \<Longrightarrow> t < length (heap st) \<Longrightarrow> sessionId (heap st ! t) = Some k \<Longrightarrow>
     \<not> closed (heap st ! t) \<Longrightarrow> map_of (transports st) k = Some t"
  unfolding registry_inv_def by blast

lemma registry_inv_unique:
  "registry_inv st \<Longrightarrow> t < length (heap st) \<Longrightarrow> t' < length (heap st) \<Longrightarrow>
     sessionId (heap st ! t) = Some k \<Longrightarrow> sessionId (heap st ! t') = Some k \<Longrightarrow> t = t'"
  unfolding registry_inv_def by blast

lemma registry_inv_uuid:
  "registry_inv st \<Longrightarrow> t < length (heap st) \<Longrightarrow> sessionId (heap st ! t) = Some k \<Longrightarrow> is_uuid k"
  unfolding registry_inv_def by blast

lemma registry_inv_alloc:
  assumes inv: "registry_inv st"
  shows "registry_inv (st\<lparr>heap := heap st @ [\<lparr>sessionId = None, closed = False, res = r\<rparr>]\<rparr>)"
    (is "registry_inv ?st'")
proof -
  let ?h = "heap st @ [\<lparr>sessionId = None, closed = False, res = r\<rparr>]"
  have h: "heap ?st' = ?h" and ts: "transports ?st' = transports st"
    by simp_all
  have old: "\<And>u. u < length (heap st) \<Longrightarrow> ?h ! u = heap st ! u"
    by (simp add: nth_append)
  have new: "\<And>u k. u < length ?h \<Longrightarrow> sessionId (?h ! u) = Some k \<Longrightarrow> u < length (heap st)"
    by (simp add: nth_append less_Suc_eq split: if_splits)
  show ?thesis
  proof (rule registry_invI)
    show "distinct (map fst (transports ?st'))"
      unfolding ts by (rule registry_inv_distinct [OF inv])
  next
    fix k u assume "map_of (transports ?st') k = Some u"
    then have "map_of (transports st) k = Some u" by simp
    from registry_inv_entry [OF inv this] old [of u]
    show "u < length (heap ?st') \<and> sessionId (heap ?st' ! u) = Some k \<and> \<not> closed (heap ?st' ! u)"
      unfolding h by simp
  next
    fix u k
    assume "u < length (heap ?st')" "sessionId (heap ?st' ! u) = Some k" "\<not> closed (heap ?st' ! u)"
    then have a: "u < length ?h" "sessionId (?h ! u) = Some k" "\<not> closed (?h ! u)"
      by simp_all
    from new [OF a(1,2)] have u: "u < length (heap st)" .
    with a old [OF u] have "sessionId (heap st ! u) = Some k" "\<not> closed (heap st ! u)"
      by simp_all
    from registry_inv_bound [OF inv u this] show "map_of (transports ?st') k = Some u"
      by simp
  next
    fix u u' k
    assume "u < length (heap ?st')" "u' < length (heap ?st')"
      "sessionId (heap ?st' ! u) = Some k" "sessionId (heap ?st' ! u') = Some k"
    then have a: "u < length ?h" "u' < length ?h"
      "sessionId (?h ! u) = Some k" "sessionId (?h ! u') = Some k"
      by simp_all
    from new [OF a(1,3)] new [OF a(2,4)]
    have u: "u < length (heap st)" "u' < length (heap st)" .
    with a old [OF u(1)] old [OF u(2)]
    have "sessionId (heap st ! u) = Some k" "sessionId (heap st ! u') = Some k"
      by simp_all
    from registry_inv_unique [OF inv u this] show "u = u'" .
  next
    fix u k
    assume "u < length (heap ?st')" "sessionId (heap ?st' ! u) = Some k"
    then have a: "u < length ?h" "sessionId (?h ! u) = Some k"
      by simp_all
    from new [OF a] have u: "u < length (heap st)" .
    with a old [OF u] have "sessionId (heap st ! u) = Some k" by simp
    from registry_inv_uuid [OF inv u this] show "is_uuid k" .
  qed
qed

lemma registry_inv_init_step:
  assumes inv: "registry_inv st" and ok: "sdk_ok st t (SessionInitialized sid)"
  shows "registry_inv (sdk_step st t (SessionInitialized sid))"
proof -
  from ok obtain tr where tr: "deref st t = Some tr"
    by (auto simp: sdk_ok_def split: option.splits)
  then have t: "t < length (heap st)" and trh: "tr = heap st ! t"
    by (auto simp: deref_def split: if_splits)
  from ok tr have unb: "sessionId (heap st ! t) = None" and opn: "\<not> closed (heap st ! t)"
    and uuid: "is_uuid sid" and fresh: "Some sid \<notin> set (map sessionId (heap st))"
    by (auto simp: sdk_ok_def trh)
  have fr: "\<And>t'. t' < length (heap st) \<Longrightarrow> sessionId (heap st ! t') \<noteq> Some sid"
    using fresh by (rule fresh_nth)
  let ?h = "(heap st)[t := tr\<lparr>sessionId := Some sid\<rparr>]"
  let ?ts = "AList.update sid t (transports st)"
  let ?st' = "sdk_step st t (SessionInitialized sid)"
  have h: "heap ?st' = ?h" and ts: "transports ?st' = ?ts"
    unfolding sdk_init_state [OF tr] by simp_all
  have len: "length ?h = length (heap st)" by simp
  have at_t: "sessionId (?h ! t) = Some sid" "\<not> closed (?h ! t)"
    using t opn by (simp_all add: trh)
  have other: "\<And>u. u \<noteq> t \<Longrightarrow> ?h ! u = heap st ! u"
    by simp
  have m: "\<And>k. map_of ?ts k = (if k = sid then Some t else map_of (transports st) k)"
    by (simp add: update_conv')
  have old_ne: "\<And>k u. map_of (transports st) k = Some u \<Longrightarrow> u \<noteq> t"
    using registry_inv_entry [OF inv] unb by fastforce
  show ?thesis
  proof (rule registry_invI)
    show "distinct (map fst (transports ?st'))"
      unfolding ts using registry_inv_distinct [OF inv] by (rule distinct_update)
  next
    fix k u assume "map_of (transports ?st') k = Some u"
    then have a: "map_of ?ts k = Some u" unfolding ts .
    have "u < length (heap st) \<and> sessionId (?h ! u) = Some k \<and> \<not> closed (?h ! u)"
    proof (cases "k = sid")
      case True
      with a m have "u = t" by simp
      with True t at_t show ?thesis by simp
    next
      case False
      with a m have o: "map_of (transports st) k = Some u" by simp
      with old_ne have "u \<noteq> t" by blast
      with registry_inv_entry [OF inv o] other show ?thesis by simp
    qed
    then show "u < length (heap ?st') \<and> sessionId (heap ?st' ! u) = Some k \<and> \<not> closed (heap ?st' ! u)"
      unfolding h len .
  next
    fix u k
    assume "u < length (heap ?st')" "sessionId (heap ?st' ! u) = Some k" "\<not> closed (heap ?st' ! u)"
    then have a: "u < length (heap st)" "sessionId (?h ! u) = Some k" "\<not> closed (?h ! u)"
      unfolding h len .
    have "map_of ?ts k = Some u"
    proof (cases "u = t")
      case True
      with a at_t m show ?thesis by simp
    next
      case False
      with a other have b: "sessionId (heap st ! u) = Some k" "\<not> closed (heap st ! u)" by simp_all
      with fr a(1) have "k \<noteq> sid" by blast
      with registry_inv_bound [OF inv a(1) b] m show ?thesis by simp
    qed
    then show "map_of (transports ?st') k = Some u" unfolding ts .
  next
    fix u u' k
    assume "u < length (heap ?st')" "u' < length (heap ?st')"
      "sessionId (heap ?st' ! u) = Some k" "sessionId (heap ?st' ! u') = Some k"
    then have a: "u < length (heap st)" "u' < length (heap st)"
      "sessionId (?h ! u) = Some k" "sessionId (?h ! u') = Some k"
      unfolding h len .
    have sid_t: "\<And>v. v < length (heap st) \<Longrightarrow> sessionId (?h ! v) = Some sid \<Longrightarrow> v = t"
      using fr other by metis
    show "u = u'"
    proof (cases "k = sid")
      case True
      with a sid_t show ?thesis by blast
    next
      case False
      with a at_t have "u \<noteq> t" "u' \<noteq> t" by auto
      with a other have "sessionId (heap st ! u) = Some k" "sessionId (heap st ! u') = Some k"
        by simp_all
      with registry_inv_unique [OF inv a(1) a(2)] show ?thesis by blast
    qed
  next
    fix u k assume "u < length (heap ?st')" "sessionId (heap ?st' ! u) = Some k"
    then have a: "u < length (heap st)" "sessionId (?h ! u) = Some k"
      unfolding h len .
    show "is_uuid k"
    proof (cases "u = t")
      case True
      with a at_t uuid show ?thesis by simp
    next
      case False
      with a other have "sessionId (heap st ! u) = Some k" by simp
      with registry_inv_uuid [OF inv a(1)] show ?thesis by blast
    qed
  qed
qed

lemma registry_inv_close_step:
  assumes inv: "registry_inv st" and ok: "sdk_ok st t Close"
  shows "registry_inv (sdk_step st t Close)"
proof -
  from ok obtain tr where tr: "deref st t = Some tr"
    by (auto simp: sdk_ok_def split: option.splits)
  then have t: "t < length (heap st)" and trh: "tr = heap st ! t"
    by (auto simp: deref_def split: if_splits)
  let ?h = "(heap st)[t := tr\<lparr>closed := True\<rparr>]"
  let ?st' = "sdk_step st t Close"
  have h: "heap ?st' = ?h"
    unfolding sdk_close_state [OF tr] by simp
  have len: "length ?h = length (heap st)" by simp
  have sid_same: "u < length (heap st) \<Longrightarrow> sessionId (?h ! u) = sessionId (heap st ! u)" for u
    by (cases "u = t") (simp_all add: trh)
  have at_t: "closed (?h ! t)"
    using t by simp
  have other: "\<And>u. u \<noteq> t \<Longrightarrow> ?h ! u = heap st ! u"
    by simp
  have ne: "\<And>sid. sessionId tr = Some sid \<Longrightarrow> sid \<noteq> []"
    using registry_inv_uuid [OF inv t] uuid_nonempty unfolding trh by blast
  have ts: "transports ?st' =
              (case sessionId tr of None \<Rightarrow> transports st
               | Some sid \<Rightarrow> AList.delete sid (transports st))"
    unfolding sdk_close_state [OF tr] using ne by (simp split: option.splits)
  have m: "\<And>k. map_of (transports ?st') k =
                 (if sessionId tr = Some k then None else map_of (transports st) k)"
    unfolding ts by (auto simp: delete_conv' split: option.splits)
  show ?thesis
  proof (rule registry_invI)
    show "distinct (map fst (transports ?st'))"
      unfolding ts using registry_inv_distinct [OF inv]
      by (simp add: distinct_delete split: option.splits)
  next
    fix k u assume "map_of (transports ?st') k = Some u"
    with m have k: "sessionId tr \<noteq> Some k" and o: "map_of (transports st) k = Some u"
      by (simp_all split: if_splits)
    from registry_inv_entry [OF inv o]
    have e: "u < length (heap st)" "sessionId (heap st ! u) = Some k" "\<not> closed (heap st ! u)"
      by simp_all
    with k have "u \<noteq> t" unfolding trh by auto
    with e other [of u]
    show "u < length (heap ?st') \<and> sessionId (heap ?st' ! u) = Some k \<and> \<not> closed (heap ?st' ! u)"
      unfolding h len by simp
  next
    fix u k
    assume "u < length (heap ?st')" "sessionId (heap ?st' ! u) = Some k" "\<not> closed (heap ?st' ! u)"
    then have a: "u < length (heap st)" "sessionId (?h ! u) = Some k" "\<not> closed (?h ! u)"
      unfolding h len .
    with at_t have ut: "u \<noteq> t" by auto
    with a other [of u] have b: "sessionId (heap st ! u) = Some k" "\<not> closed (heap st ! u)"
      by simp_all
    have "sessionId tr \<noteq> Some k"
      using registry_inv_unique [OF inv a(1) t b(1)] ut unfolding trh by blast
    with registry_inv_bound [OF inv a(1) b] m
    show "map_of (transports ?st') k = Some u" by simp
  next
    fix u u' k
    assume "u < length (heap ?st')" "u' < length (heap ?st')"
      "sessionId (heap ?st' ! u) = Some k" "sessionId (heap ?st' ! u') = Some k"
    then have a: "u < length (heap st)" "u' < length (heap st)"
      "sessionId (?h ! u) = Some k" "sessionId (?h ! u') = Some k"
      unfolding h len .
    with sid_same have "sessionId (heap st ! u) = Some k" "sessionId (heap st ! u') = Some k"
      by simp_all
    from registry_inv_unique [OF inv a(1) a(2) this] show "u = u'" .
  next
    fix u k assume "u < length (heap ?st')" "sessionId (heap ?st' ! u) = Some k"
    then have a: "u < length (heap st)" "sessionId (?h ! u) = Some k"
      unfolding h len .
    with sid_same have "sessionId (heap st ! u) = Some k" by simp
    from registry_inv_uuid [OF inv a(1) this] show "is_uuid k" .
  qed
qed

lemma registry_inv_step:
  assumes "registry_inv st" and "event_ok st e"
  shows "registry_inv (step st n e)"
proof (cases e)
  case (PostMcp req)
  with assms(1) post_mcp_state [of st req n] registry_inv_alloc [of st n] show ?thesis
    by auto
next
  case (Sdk t c)
  with assms registry_inv_init_step registry_inv_close_step show ?thesis
    by (cases c) simp_all
qed (use assms in \<open>simp_all add: handleSessionRequest_state\<close>)

lemma registry_inv_run:
  "registry_inv st \<Longrightarrow> run_ok st n es \<Longrightarrow> registry_inv (run st n es)"
proof (induction es arbitrary: st n)
  case Nil
  then show ?case by simp
next
  case (Cons e es)
  then show ?case by (simp add: registry_inv_step)
qed

lemma registry_inv_reachable:
  "run_ok init_state 0 es \<Longrightarrow> registry_inv (run init_state 0 es)"
  by (rule registry_inv_run [OF registry_inv_init])

lemma registry_inv_member:
  assumes "registry_inv st"
  shows "(k, t) \<in> set (transports st) \<longleftrightarrow> map_of (transports st) k = Some t"
  using registry_inv_distinct [OF assms] by (auto dest: map_of_SomeD)

lemma registry_inv_count:
  assumes inv: "registry_inv st"
  shows "length (transports st) = length (filter bound (heap st))"
proof -
  have d: "distinct (transports st)"
    using registry_inv_distinct [OF inv] by (rule distinct_map [THEN iffD1, THEN conjunct1])
  have "inj_on snd (set (transports st))"
  proof (rule inj_onI)
    fix p q assume p: "p \<in> set (transports st)" and q: "q \<in> set (transports st)"
      and e: "snd p = snd q"
    from p registry_inv_member [OF inv, of "fst p" "snd p"]
    have "map_of (transports st) (fst p) = Some (snd p)" by simp
    from registry_inv_entry [OF inv this] have 1: "sessionId (heap st ! snd p) = Some (fst p)"
      by simp
    from q registry_inv_member [OF inv, of "fst q" "snd q"]
    have "map_of (transports st) (fst q) = Some (snd q)" by simp
    from registry_inv_entry [OF inv this] have 2: "sessionId (heap st ! snd q) = Some (fst q)"
      by simp
    from 1 2 e have "fst p = fst q" by simp
    with e show "p = q" by (simp add: prod_eq_iff)
  qed
  with d have ds: "distinct (map snd (transports st))"
    by (simp add: distinct_map)
  have s: "set (map snd (transports st)) = {t. t < length (heap st) \<and> bound (heap st ! t)}"
  proof (rule set_eqI)
    fix t
    show "t \<in> set (map snd (transports st)) \<longleftrightarrow> t \<in> {t. t < length (heap st) \<and> bound (heap st ! t)}"
    proof
      assume "t \<in> set (map snd (transports st))"
      then obtain k where "(k, t) \<in> set (transports st)" by auto
      with registry_inv_member [OF inv] have "map_of (transports st) k = Some t" by simp
      from registry_inv_entry [OF inv this]
      show "t \<in> {t. t < length (heap st) \<and> bound (heap st ! t)}"
        by (simp add: bound_def)
    next
      assume "t \<in> {t. t < length (heap st) \<and> bound (heap st ! t)}"
      then obtain k where t: "t < length (heap st)"
        and b: "sessionId (heap st ! t) = Some k" "\<not> closed (heap st ! t)"
        by (auto simp: bound_def)
      from registry_inv_bound [OF inv t b] have "(k, t) \<in> set (transports st)"
        by (rule map_of_SomeD)
      then show "t \<in> set (map snd (transports st))" by force
    qed
  qed
  have "length (transports st) = length (map snd (transports st))" by simp
  also have "\<dots> = card (set (map snd (transports st)))"
    using ds by (rule distinct_card [symmetric])
  also have "\<dots> = card {t. t < length (heap st) \<and> bound (heap st ! t)}"
    by (simp only: s)
  also have "\<dots> = length (filter bound (heap st))"
    by (rule length_filter_conv_card [symmetric])
  finally show ?thesis .
qed

lemma step_keeps_closed:
  assumes ok: "event_ok st e" and t: "t < length (heap st)"
    and c: "closed (heap st ! t)" and s: "sessionId (heap st ! t) = Some k"
  shows "t < length (heap (step st n e)) \<and> closed (heap (step st n e) ! t) \<and>
         sessionId (heap (step st n e) ! t) = Some k"
proof (cases e)
  case (PostMcp req)
  with post_mcp_state [of st req n] t c s show ?thesis
    by (auto simp: nth_append)
next
  case (Sdk u call)
  with ok obtain tr where tr: "deref st u = Some tr"
    by (auto simp: sdk_ok_def split: option.splits)
  then have trh: "tr = heap st ! u" by (auto simp: deref_def split: if_splits)
  show ?thesis
  proof (cases call)
    case (SessionInitialized sid)
    with ok Sdk tr have "sessionId (heap st ! u) = None"
      by (simp add: sdk_ok_def trh)
    with s have "u \<noteq> t" by auto
    with t c s show ?thesis
      unfolding Sdk SessionInitialized step.simps sdk_init_state [OF tr] by simp
  next
    case Close
    from t c s show ?thesis
      unfolding Sdk Close step.simps sdk_close_state [OF tr]
      by (cases "u = t") (simp_all add: trh)
  qed
qed (use t c s in \<open>simp_all add: handleSessionRequest_state\<close>)

lemma run_keeps_closed:
  "run_ok st n es \<Longrightarrow> t < length (heap st) \<Longrightarrow> closed (heap st ! t) \<Longrightarrow>
   sessionId (heap st ! t) = Some k \<Longrightarrow>
     t < length (heap (run st n es)) \<and> closed (heap (run st n es) ! t) \<and>
     sessionId (heap (run st n es) ! t) = Some k"
proof (induction es arbitrary: st n)
  case Nil
  then show ?case by simp
next
  case (Cons e es)
  from Cons.prems have ok: "event_ok st e" and rest: "run_ok (step st n e) (Suc n) es"
    by simp_all
  from step_keeps_closed [OF ok Cons.prems(2-4), of n] Cons.IH [OF rest]
  show ?case by simp
qed

lemma run_append: "run st n (es @ es') = run (run st n es) (n + length es) es'"
  by (induction es arbitrary: st n) simp_all

lemma run_ok_append:
  "run_ok st n (es @ es') \<longleftrightarrow> run_ok st n es \<and> run_ok (run st n es) (n + length es) es'"
  by (induction es arbitrary: st n) simp_all

subsection \<open>The sample run\<close>

lemmas example_defs =
  example_run_def example_init_def example_id1_def example_id2_def example_state_def
  init_state_def post_mcp_def new_transport_def handleSessionRequest_def
  sdk_ok_def sdk_step_def deref_def onsessioninitialized_def onclose_def
  js_set_def js_delete_def js_get_def object_prototype_keys_def
  is_uuid_def uuid_pattern_def uuid_char_def

lemma example_run_ok: "run_ok init_state 0 example_run"
  by (simp add: example_defs)

lemma example_run_state: "run init_state 0 example_run = example_state"
  by (simp add: example_defs)

subsection \<open>Reachable states\<close>

text \<open>
  Claim C3: in every state that a run from the initial state reaches, a transport is the
  value of an entry of the registry exactly when it has not closed and has a session id.
  An entry's key is the session id of its transport, so a transport enters the registry
  only once its id is assigned, and a closed transport has no entry. A run is a list of
  events in which the transport library keeps its contract (\<open>run_ok\<close>).
\<close>

theorem registry_holds_bound_transports:
  assumes "run_ok init_state 0 es"
  shows "(\<forall>t < length (heap (run init_state 0 es)).
            (t \<in> snd ` set (transports (run init_state 0 es)))
              = (\<not> closed (heap (run init_state 0 es) ! t) \<and>
                 sessionId (heap (run init_state 0 es) ! t) \<noteq> None)) \<and>
         (\<forall>k t. (k, t) \<in> set (transports (run init_state 0 es)) \<longrightarrow>
            t < length (heap (run init_state 0 es)) \<and>
            sessionId (heap (run init_state 0 es) ! t) = Some k)"
proof -
  let ?st = "run init_state 0 es"
  have inv: "registry_inv ?st"
    using assms by (rule registry_inv_reachable)
  have entry: "t < length (heap ?st) \<and> sessionId (heap ?st ! t) = Some k \<and> \<not> closed (heap ?st ! t)"
    if "(k, t) \<in> set (transports ?st)" for k t
    using that registry_inv_member [OF inv] registry_inv_entry [OF inv] by blast
  have "(t \<in> snd ` set (transports ?st)) = (\<not> closed (heap ?st ! t) \<and> sessionId (heap ?st ! t) \<noteq> None)"
    if t: "t < length (heap ?st)" for t
  proof
    assume "t \<in> snd ` set (transports ?st)"
    then obtain k where "(k, t) \<in> set (transports ?st)" by auto
    from entry [OF this] show "\<not> closed (heap ?st ! t) \<and> sessionId (heap ?st ! t) \<noteq> None"
      by simp
  next
    assume "\<not> closed (heap ?st ! t) \<and> sessionId (heap ?st ! t) \<noteq> None"
    then obtain k where "sessionId (heap ?st ! t) = Some k" "\<not> closed (heap ?st ! t)"
      by auto
    from registry_inv_bound [OF inv t this] have "(k, t) \<in> set (transports ?st)"
      by (rule map_of_SomeD)
    then show "t \<in> snd ` set (transports ?st)" by force
  qed
  with entry show ?thesis by blast
qed

theorem registry_holds_bound_transports_witness:
  "run_ok init_state 0 example_run \<and>
   1 \<in> snd ` set (transports (run init_state 0 example_run)) \<and>
   \<not> closed (heap (run init_state 0 example_run) ! 1) \<and>
   sessionId (heap (run init_state 0 example_run) ! 1) = Some example_id2 \<and>
   0 \<notin> snd ` set (transports (run init_state 0 example_run)) \<and>
   closed (heap (run init_state 0 example_run) ! 0)"
proof -
  have len: "length (heap (run init_state 0 example_run)) = 2"
    by (simp add: example_run_state example_state_def)
  from registry_holds_bound_transports [OF example_run_ok] example_run_ok len
  show ?thesis
    by (simp add: example_run_state example_state_def)
qed

text \<open>
  Claim C7: \<open>GET /health\<close> answers, whatever the request carries, with status 200 and an
  object of exactly the fields \<open>status\<close>, \<open>timestamp\<close>, \<open>activeSessions\<close>, \<open>serverName\<close> and
  \<open>serverVersion\<close>; in every reachable state \<open>activeSessions\<close> is the number of bound
  transports, which is the number of entries of the registry.
\<close>

theorem health_reports_bound_transports:
  assumes "run_ok init_state 0 es"
  shows "health cfg (run init_state 0 es) now req =
           \<lparr>status = 200,
            payload = JsonBody (JObj
              [(''status'', JStr ''healthy''),
               (''timestamp'', JStr now),
               (''activeSessions'',
                  JNum (int (length (filter bound (heap (run init_state 0 es)))))),
               (''serverName'', JStr (serverName cfg)),
               (''serverVersion'', JStr (serverVersion cfg))])\<rparr> \<and>
         length (filter bound (heap (run init_state 0 es)))
           = length (transports (run init_state 0 es))"
  using registry_inv_count [OF registry_inv_reachable [OF assms]]
  by (simp add: health_def object_keys_def)

theorem health_reports_bound_transports_witness:
  "run_ok init_state 0 example_run \<and>
   health \<lparr>serverName = ''demo'', serverVersion = ''1.0.0''\<rparr> (run init_state 0 example_run)
      ''2025-10-29T09:00:00.000Z'' \<lparr>mcp_session_id = Some ''bogus'', body = None\<rparr> =
     \<lparr>status = 200,
      payload = JsonBody (JObj
        [(''status'', JStr ''healthy''),
         (''timestamp'', JStr ''2025-10-29T09:00:00.000Z''),
         (''activeSessions'', JNum 1),
         (''serverName'', JStr ''demo''),
         (''serverVersion'', JStr ''1.0.0'')])\<rparr>"
proof -
  have n: "length (filter bound (heap (run init_state 0 example_run))) = 1"
    by (simp add: example_run_state example_state_def bound_def)
  from health_reports_bound_transports [OF example_run_ok,
         of "\<lparr>serverName = ''demo'', serverVersion = ''1.0.0''\<rparr>" "''2025-10-29T09:00:00.000Z''"
            "\<lparr>mcp_session_id = Some ''bogus'', body = None\<rparr>"] example_run_ok n
  show ?thesis by simp
qed

text \<open>
  Claim C5: once a transport with a session id has closed, every request that carries
  this id at any later state of the run is rejected: \<open>POST /mcp\<close> answers with the 400 error
  object, \<open>GET /mcp\<close> and \<open>DELETE /mcp\<close> with the 400 text, the state stays as it is, and the
  outcomes are those of the same request in the initial state, where no session has ever
  existed.
\<close>

theorem closed_session_is_unknown:
  assumes ok: "run_ok init_state 0 (es @ es')"
    and t: "t < length (heap (run init_state 0 es))"
    and c: "closed (heap (run init_state 0 es) ! t)"
    and s: "sessionId (heap (run init_state 0 es) ! t) = Some sid"
    and req: "mcp_session_id req = Some sid"
  shows "post_mcp (run init_state 0 (es @ es')) req r
           = (run init_state 0 (es @ es'), Respond bad_request) \<and>
         handleSessionRequest (run init_state 0 (es @ es')) req
           = (run init_state 0 (es @ es'), Respond invalid_session) \<and>
         status bad_request = 400 \<and> status invalid_session = 400 \<and>
         snd (post_mcp (run init_state 0 (es @ es')) req r) = snd (post_mcp init_state req r) \<and>
         snd (handleSessionRequest (run init_state 0 (es @ es')) req)
           = snd (handleSessionRequest init_state req)"
proof -
  let ?st1 = "run init_state 0 es" and ?st = "run init_state 0 (es @ es')"
  from ok have ok1: "run_ok init_state 0 es" and ok2: "run_ok ?st1 (0 + length es) es'"
    by (simp_all add: run_ok_append)
  have st: "?st = run ?st1 (0 + length es) es'"
    by (rule run_append)
  from run_keeps_closed [OF ok2 t c s]
  have t': "t < length (heap ?st)" and c': "closed (heap ?st ! t)"
    and s': "sessionId (heap ?st ! t) = Some sid"
    unfolding st by simp_all
  have inv: "registry_inv ?st"
    using ok by (rule registry_inv_reachable)
  have uuid: "is_uuid sid"
    using registry_inv_uuid [OF inv t' s'] .
  have none: "map_of (transports ?st) sid = None"
  proof (rule ccontr)
    assume "map_of (transports ?st) sid \<noteq> None"
    then obtain u where u: "map_of (transports ?st) sid = Some u" by auto
    from registry_inv_entry [OF inv u]
    have e: "u < length (heap ?st)" "sessionId (heap ?st ! u) = Some sid" "\<not> closed (heap ?st ! u)"
      by simp_all
    from registry_inv_unique [OF inv e(1) t' e(2) s'] have "u = t" .
    with e c' show False by simp
  qed
  have look: "session_lookup (transports ?st) (mcp_session_id req) = Undefined"
    using js_get_uuid [OF uuid none] uuid_nonempty [OF uuid] req by simp
  have look0: "session_lookup (transports init_state) (mcp_session_id req) = Undefined"
    using js_get_uuid [OF uuid, of "[]"] uuid_nonempty [OF uuid] req
    by (simp add: init_state_def)
  have ht: "header_truthy (mcp_session_id req)"
    using uuid_nonempty [OF uuid] req by simp
  show ?thesis
    using look look0 ht
    by (simp add: post_mcp_def handleSessionRequest_def bad_request_def invalid_session_def)
qed

theorem closed_session_is_unknown_witness:
  "run_ok init_state 0 (example_run @ example_later) \<and>
   closed (heap (run init_state 0 example_run) ! 0) \<and>
   sessionId (heap (run init_state 0 example_run) ! 0) = Some example_id1 \<and>
   post_mcp (run init_state 0 (example_run @ example_later))
      \<lparr>mcp_session_id = Some example_id1, body = None\<rparr> 8
     = (run init_state 0 (example_run @ example_later), Respond bad_request) \<and>
   handleSessionRequest (run init_state 0 (example_run @ example_later))
      \<lparr>mcp_session_id = Some example_id1, body = None\<rparr>
     = (run init_state 0 (example_run @ example_later), Respond invalid_session)"
proof -
  have ok: "run_ok init_state 0 (example_run @ example_later)"
    by (simp add: example_later_def example_defs)
  have t: "0 < length (heap (run init_state 0 example_run))"
    and c: "closed (heap (run init_state 0 example_run) ! 0)"
    and s: "sessionId (heap (run init_state 0 example_run) ! 0) = Some example_id1"
    by (simp_all add: example_run_state example_state_def)
  have r: "mcp_session_id \<lparr>mcp_session_id = Some example_id1, body = None\<rparr> = Some example_id1"
    by simp
  from closed_session_is_unknown [OF ok t c s r, of 8] ok c s show ?thesis by simp
qed

subsection \<open>The session id header along a run\<close>





















end
